theory Spec2Isabelle
  imports Complex_Main "HOL-Library.Sublist"
begin

section \<open>JavaScript strings and numbers\<close>

text \<open>
  A JavaScript string is a sequence of code units; the model is \<^typ>\<open>string\<close>, one
  \<^typ>\<open>char\<close> per code unit, which covers the code units \<open>0x00\<close> to \<open>0xFF\<close>.
  \<open>chunkSize\<close>, \<open>overlap\<close> and every index are JavaScript numbers holding integers;
  the model is \<^typ>\<open>int\<close>, so negative arguments are inputs of the model too.
\<close>

text \<open>
  \<open>String.prototype.trim\<close> removes WhiteSpace and LineTerminator code units from both
  ends. Below \<open>0x100\<close> these are TAB, LF, VT, FF, CR, SPACE and NBSP.
\<close>

definition is_ws :: "char \<Rightarrow> bool" where
  "is_ws c = (of_char c \<in> {9, 10, 11, 12, 13, 32, 160 :: nat})"

definition trim :: "string \<Rightarrow> string" where
  "trim s = rev (dropWhile is_ws (rev (dropWhile is_ws s)))"

text \<open>
  \<open>s.substring(indexStart, indexEnd)\<close>: both arguments are clamped to \<open>[0, s.length]\<close>
  and swapped when the first is the greater.
\<close>

definition substring :: "string \<Rightarrow> int \<Rightarrow> int \<Rightarrow> string" where
  "substring s indexStart indexEnd =
     (let len = int (length s);
          a = max 0 (min indexStart len);
          b = max 0 (min indexEnd len);
          lo = min a b;
          hi = max a b
      in take (nat (hi - lo)) (drop (nat lo) s))"

text \<open>
  \<open>s.lastIndexOf(pat)\<close>: the greatest index at which \<open>pat\<close> occurs in \<open>s\<close>, or \<open>-1\<close>.
  \<open>lastIndexOf_from s pat i\<close> searches the positions \<open>i, i - 1, ..., 0\<close>.
\<close>

fun lastIndexOf_from :: "string \<Rightarrow> string \<Rightarrow> nat \<Rightarrow> int" where
  "lastIndexOf_from s pat 0 = (if prefix pat s then 0 else - 1)"
| "lastIndexOf_from s pat (Suc i) =
     (if prefix pat (drop (Suc i) s) then int (Suc i) else lastIndexOf_from s pat i)"

definition lastIndexOf :: "string \<Rightarrow> string \<Rightarrow> int" where
  "lastIndexOf s pat =
     (if length s < length pat then - 1
      else lastIndexOf_from s pat (length s - length pat))"

section \<open>text-chunker.ts\<close>

subsection \<open>chunkText\<close>

text \<open>
  The \<open>while\<close> loop of \<open>chunkText\<close>. The first argument bounds the number of times the
  loop body may run: the result is \<open>None\<close> when the loop condition still holds and no
  iteration is left. \<open>chunks\<close> is the array built so far; \<open>push\<close> appends at the end.
\<close>

fun chunkText_loop ::
  "nat \<Rightarrow> string \<Rightarrow> int \<Rightarrow> int \<Rightarrow> int \<Rightarrow> string list \<Rightarrow> string list option" where
  "chunkText_loop 0 text chunkSize overlap startIndex chunks =
     (if startIndex < int (length text) then None else Some chunks)"
| "chunkText_loop (Suc fuel) text chunkSize overlap startIndex chunks =
     (if startIndex < int (length text) then
        (let endIndex = min (startIndex + chunkSize) (int (length text));
             chunk = substring text startIndex endIndex;
             chunks' = chunks @ [chunk]
         in if endIndex = int (length text) then Some chunks'
            else chunkText_loop fuel text chunkSize overlap
                   (startIndex + (chunkSize - overlap)) chunks')
      else Some chunks)"

definition chunkText :: "nat \<Rightarrow> string \<Rightarrow> int \<Rightarrow> int \<Rightarrow> string list option" where
  "chunkText fuel text chunkSize overlap =
     (if text = [] \<or> length (trim text) = 0 then Some []
      else if int (length text) \<le> chunkSize then Some [text]
      else chunkText_loop fuel text chunkSize overlap 0 [])"

subsection \<open>chunkTextSmart\<close>

definition sentenceEndings :: "string list" where
  "sentenceEndings =
     [''. '', [CHR ''.'', CHR 0x0A], ''! '', [CHR ''!'', CHR 0x0A],
      ''? '', [CHR ''?'', CHR 0x0A], [CHR 0x0A, CHR 0x0A]]"

text \<open>
  The \<open>for ... of\<close> loop over \<open>sentenceEndings\<close>, started with \<open>lastBoundary = -1\<close>:
  one step per ending, in the order of the array.
\<close>

definition boundary_step :: "string \<Rightarrow> string \<Rightarrow> int \<Rightarrow> int" where
  "boundary_step searchText ending lastBoundary =
     (let pos = lastIndexOf searchText ending
      in if pos > lastBoundary then pos + int (length ending) else lastBoundary)"

definition find_lastBoundary :: "string \<Rightarrow> int" where
  "find_lastBoundary searchText = fold (boundary_step searchText) sentenceEndings (- 1)"

text \<open>
  The body of \<open>if (endIndex < text.length)\<close>: the new value of \<open>endIndex\<close>.
  \<open>Math.floor(chunkSize * 0.2)\<close> is \<open>chunkSize div 5\<close> for an integer \<open>chunkSize\<close>.
\<close>

definition adjust_endIndex :: "string \<Rightarrow> int \<Rightarrow> int \<Rightarrow> int" where
  "adjust_endIndex text chunkSize endIndex =
     (let searchStart = endIndex - chunkSize div 5;
          searchText = substring text searchStart endIndex;
          lastBoundary = find_lastBoundary searchText
      in if lastBoundary > 0 then searchStart + lastBoundary else endIndex)"

text \<open>The value of \<open>endIndex\<close> at the \<open>substring\<close> call of one iteration.\<close>

definition smart_endIndex :: "string \<Rightarrow> int \<Rightarrow> int \<Rightarrow> int" where
  "smart_endIndex text chunkSize startIndex =
     (let endIndex = min (startIndex + chunkSize) (int (length text))
      in if endIndex < int (length text) then adjust_endIndex text chunkSize endIndex
         else endIndex)"

fun chunkTextSmart_loop ::
  "nat \<Rightarrow> string \<Rightarrow> int \<Rightarrow> int \<Rightarrow> int \<Rightarrow> string list \<Rightarrow> string list option" where
  "chunkTextSmart_loop 0 text chunkSize overlap startIndex chunks =
     (if startIndex < int (length text) then None else Some chunks)"
| "chunkTextSmart_loop (Suc fuel) text chunkSize overlap startIndex chunks =
     (if startIndex < int (length text) then
        (let endIndex = smart_endIndex text chunkSize startIndex;
             chunk = trim (substring text startIndex endIndex);
             chunks' = (if length chunk > 0 then chunks @ [chunk] else chunks)
         in if endIndex = int (length text) then Some chunks'
            else chunkTextSmart_loop fuel text chunkSize overlap (endIndex - overlap) chunks')
      else Some chunks)"

definition chunkTextSmart :: "nat \<Rightarrow> string \<Rightarrow> int \<Rightarrow> int \<Rightarrow> string list option" where
  "chunkTextSmart fuel text chunkSize overlap =
     (if text = [] \<or> length (trim text) = 0 then Some []
      else if int (length text) \<le> chunkSize then Some [text]
      else chunkTextSmart_loop fuel text chunkSize overlap 0 [])"

subsection \<open>The properties stated of the chunkers\<close>

text \<open>
  The bound on the iterations of the fixed-width chunker:
  \<open>ceil(text.length / (chunkSize - overlap))\<close>.
\<close>

definition iteration_bound :: "string \<Rightarrow> int \<Rightarrow> int \<Rightarrow> nat" where
  "iteration_bound text chunkSize overlap =
     nat \<lceil>real (length text) / real_of_int (chunkSize - overlap)\<rceil>"

text \<open>The half-open range \<open>[a, b)\<close> of a text, for \<open>a \<le> b \<le> length text\<close>.\<close>

definition text_range :: "string \<Rightarrow> nat \<Rightarrow> nat \<Rightarrow> string" where
  "text_range text a b = take (b - a) (drop a text)"

text \<open>
  Reconstruction from overlapping chunks: the first \<open>overlap\<close> characters of every
  chunk after the first are removed, and the rest is concatenated.
\<close>

fun remove_overlaps :: "int \<Rightarrow> string list \<Rightarrow> string" where
  "remove_overlaps overlap [] = []"
| "remove_overlaps overlap (c # cs) = c @ concat (map (drop (nat overlap)) cs)"

text \<open>
  The boundary as the specification words it: for each marker its last occurrence in
  the search window, taken just after the marker; of these the one furthest to the right.
\<close>

definition marker_ends :: "string \<Rightarrow> int list" where
  "marker_ends searchText =
     map (\<lambda>ending. lastIndexOf searchText ending + int (length ending))
       (filter (\<lambda>ending. 0 \<le> lastIndexOf searchText ending) sentenceEndings)"

definition rightmost_boundary :: "string \<Rightarrow> int option" where
  "rightmost_boundary searchText =
     (case marker_ends searchText of [] \<Rightarrow> None | b # bs \<Rightarrow> Some (fold max bs b))"

definition spec_endIndex :: "string \<Rightarrow> int \<Rightarrow> int \<Rightarrow> int" where
  "spec_endIndex text chunkSize startIndex =
     (let naive = min (startIndex + chunkSize) (int (length text));
          searchStart = naive - chunkSize div 5
      in if naive < int (length text) then
           (case rightmost_boundary (substring text searchStart naive) of
              None \<Rightarrow> naive
            | Some b \<Rightarrow> searchStart + b)
         else naive)"

section \<open>file-processor.ts\<close>

text \<open>
  \<open>extractTextFromPDF\<close> is an \<open>async\<close> function whose body throws: the promise it
  returns is rejected with the \<open>Error\<close>'s message (\<open>Inl\<close>).
\<close>

definition extractTextFromPDF :: "'b \<Rightarrow> string + string" where
  "extractTextFromPDF buffer =
     Inl ''PDF support is temporarily unavailable. Please upload TXT or MD files instead.''"

definition validateFileSize :: "nat \<Rightarrow> nat \<Rightarrow> bool" where
  "validateFileSize size_bytes maxSizeMB = (size_bytes \<le> maxSizeMB * 1024 * 1024)"

text \<open>\<open>s.split(sep)\<close> for a separator of one code unit: never the empty array.\<close>

fun split :: "char \<Rightarrow> string \<Rightarrow> string list" where
  "split sep [] = [[]]"
| "split sep (c # cs) =
     (if c = sep then [] # split sep cs
      else (case split sep cs of
              [] \<Rightarrow> [[c]]
            | seg # segs \<Rightarrow> (c # seg) # segs))"

text \<open>\<open>xs.pop()\<close>: the last element, \<open>undefined\<close> (\<open>None\<close>) on the empty array.\<close>

definition pop :: "'a list \<Rightarrow> 'a option" where
  "pop xs = (if xs = [] then None else Some (last xs))"

text \<open>
  \<open>toLowerCase\<close> on the code units below \<open>0x100\<close>: \<open>A\<close> to \<open>Z\<close> and the capital
  letters \<open>0xC0\<close> to \<open>0xDE\<close> (without the multiplication sign \<open>0xD7\<close>) move up by
  \<open>0x20\<close>.
\<close>

definition lower_char :: "char \<Rightarrow> char" where
  "lower_char c =
     (let n = (of_char c :: nat)
      in if (65 \<le> n \<and> n \<le> 90) \<or> (192 \<le> n \<and> n \<le> 222 \<and> n \<noteq> 215)
         then char_of (n + 32) else c)"

definition toLowerCase :: "string \<Rightarrow> string" where
  "toLowerCase s = map lower_char s"

text \<open>\<open>a || b\<close> on strings: the empty string is the only falsy string.\<close>

definition or_else :: "string \<Rightarrow> string \<Rightarrow> string" where
  "or_else a b = (if a = [] then b else a)"

definition getFileExtension :: "string \<Rightarrow> string" where
  "getFileExtension filename =
     (case map_option toLowerCase (pop (split CHR ''.'' filename)) of
        None \<Rightarrow> []
      | Some e \<Rightarrow> or_else e [])"

definition validateFileType :: "string \<Rightarrow> bool" where
  "validateFileType filename =
     (let allowedExtensions = [''txt'', ''md''];
          extension = getFileExtension filename
      in extension \<in> set allowedExtensions)"

section \<open>api/ingest/route.ts\<close>

text \<open>
  The entry that \<open>parseFormData\<close> builds for an uploaded file, and its result: the
  files and the \<open>namespace\<close> field (\<open>None\<close> when the form has none).
\<close>

record 'b uploaded_file =
  originalFilename :: string
  mimetype :: string
  file_size :: nat
  buffer :: 'b

record 'b form_data =
  files :: "'b uploaded_file list"
  fields_namespace :: "string option"

record metadata =
  md_text :: string
  md_chunk :: string
  md_fileName :: string
  md_fileType :: string
  md_chunkIndex :: nat
  md_totalChunks :: nat
  md_namespace :: string
  md_uploadedAt :: string

record 'v vector =
  vec_id :: string
  vec_values :: 'v
  vec_metadata :: metadata

text \<open>
  What the handler calls and reads outside itself: \<open>buffer.toString('utf-8')\<close>,
  \<open>getEmbeddings\<close>, the order in which the \<open>getEmbeddings\<close> calls of one upload
  settle (indices of chunks; a call that is not listed settles after those listed, in
  the order of the chunks), \<open>Date.now()\<close> and \<open>new Date().toISOString()\<close> as read while
  the vector of a given index is built, \<open>process.env.PINECONE_INDEX\<close>, and
  \<open>index.namespace(ns).upsert(batch)\<close>. A call that throws is \<open>Inl\<close> (\<open>Some\<close> for
  \<open>upsert\<close>) of the text that the template literal \<open>${error}\<close> gives for the value
  thrown: \<open>Error: \<close> and the message for an \<open>Error\<close>, the name of its class and the
  message for an error of another class.
\<close>

record ('b, 'v) collaborators =
  toString_utf8 :: "'b \<Rightarrow> string"
  getEmbeddings :: "string \<Rightarrow> string + 'v"
  settle_order :: "nat list"
  date_now :: "nat \<Rightarrow> nat"
  date_toISOString :: "nat \<Rightarrow> string"
  env_PINECONE_INDEX :: "string option"
  upsert :: "string \<Rightarrow> 'v vector list \<Rightarrow> string option"

datatype response =
  Error_json string nat
  | Success_json string nat string

text \<open>A non-negative integer in a template literal: its decimal digits.\<close>

function number_toString :: "nat \<Rightarrow> string" where
  "number_toString n =
     (if n < 10 then [char_of (48 + n)]
      else number_toString (n div 10) @ [char_of (48 + n mod 10)])"
  by pat_completeness auto
termination
  by (relation "measure id") auto

declare number_toString.simps [simp del]

text \<open>
  \<open>Promise.all(chunks.map(getEmbeddings))\<close>: every call is made; when none rejects, the
  embeddings in the order of the chunks, otherwise the rejection that settles first.
\<close>

definition embed_all ::
  "(string \<Rightarrow> string + 'v) \<Rightarrow> nat list \<Rightarrow> string list \<Rightarrow> string + 'v list" where
  "embed_all emb settled chunks =
     (let results = map emb chunks;
          rejected = filter (\<lambda>i. i < length results \<and> isl (results ! i))
                       (settled @ [0..<length results])
      in case rejected of
           [] \<Rightarrow> Inr (map projr results)
         | i # _ \<Rightarrow> Inl (projl (results ! i)))"

definition prepare_vectors ::
  "(nat \<Rightarrow> nat) \<Rightarrow> (nat \<Rightarrow> string) \<Rightarrow> string \<Rightarrow> string \<Rightarrow> string \<Rightarrow>
   string list \<Rightarrow> 'v list \<Rightarrow> 'v vector list" where
  "prepare_vectors now isoString namespace fileName fileExtension chunks embeddings =
     map (\<lambda>(index, chunk, embedding).
            \<lparr>vec_id = or_else namespace ''default'' @ ''-'' @ or_else fileName ''file'' @ ''-''
                       @ number_toString (now index) @ ''-'' @ number_toString index,
             vec_values = embedding,
             vec_metadata =
               \<lparr>md_text = chunk,
                md_chunk = chunk,
                md_fileName = or_else fileName ''unknown'',
                md_fileType = fileExtension,
                md_chunkIndex = index,
                md_totalChunks = length chunks,
                md_namespace = or_else namespace ''default'',
                md_uploadedAt = isoString index\<rparr>\<rparr>)
       (zip [0..<length chunks] (zip chunks embeddings))"

text \<open>
  The batch loop \<open>for (let i = 0; i < vectors.length; i += batchSize)\<close> with
  \<open>batchSize = 100\<close>. The result lists the \<open>upsert\<close> calls made, each with the
  namespace it targets, and the error that ended the loop, if any.
\<close>

function upsert_loop ::
  "(string \<Rightarrow> 'v vector list \<Rightarrow> string option) \<Rightarrow> string \<Rightarrow> 'v vector list \<Rightarrow> nat \<Rightarrow>
   (string \<times> 'v vector list) list \<times> string option" where
  "upsert_loop ups namespace vectors i =
     (if i < length vectors then
        (let batch = take 100 (drop i vectors);
             target = or_else namespace []
         in case ups target batch of
              Some err \<Rightarrow> ([(target, batch)], Some err)
            | None \<Rightarrow>
                (case upsert_loop ups namespace vectors (i + 100) of
                   (calls, r) \<Rightarrow> ((target, batch) # calls, r)))
      else ([], None))"
  by pat_completeness auto
termination
  by (relation "measure (\<lambda>(ups, namespace, vectors, i). length vectors - i)") auto

declare upsert_loop.simps [simp del]

text \<open>
  The \<open>catch\<close> block of \<open>POST\<close>; \<open>rendered\<close> is the text of \<open>${error}\<close> for the value
  caught.
\<close>

definition caught :: "string \<Rightarrow> response" where
  "caught rendered = Error_json (''Failed to process file: '' @ rendered) 500"

text \<open>
  \<open>POST\<close> after \<open>parseFormData\<close>: the response and the \<open>upsert\<close> calls made. The
  first argument bounds the iterations of the chunker's loop; the result is \<open>None\<close>
  when the chunker does not return within it. \<open>extractTextFromPDF\<close> throws an
  \<open>Error\<close>, so the text of \<open>${error}\<close> is \<open>Error: \<close> and its message.
\<close>

definition POST ::
  "nat \<Rightarrow> ('b, 'v) collaborators \<Rightarrow> 'b form_data \<Rightarrow>
   (response \<times> (string \<times> 'v vector list) list) option" where
  "POST fuel ext form =
     (case files form of
        [] \<Rightarrow> Some (Error_json ''No file uploaded'' 400, [])
      | file # _ \<Rightarrow>
          (let namespace = (case fields_namespace form of
                              None \<Rightarrow> []
                            | Some v \<Rightarrow> or_else v [])
           in if originalFilename file = [] then Some (Error_json ''Invalid file'' 400, [])
              else if \<not> validateFileType (originalFilename file) then
                Some (Error_json
                  ''Invalid file type. Only PDF, TXT, and MD files are allowed.'' 400, [])
              else if \<not> validateFileSize (file_size file) 4 then
                Some (Error_json ''File size exceeds 4MB limit'' 400, [])
              else
                (let fileExtension = getFileExtension (originalFilename file)
                 in case (if fileExtension = ''pdf'' then extractTextFromPDF (buffer file)
                          else Inr (toString_utf8 ext (buffer file))) of
                      Inl msg \<Rightarrow> Some (caught (''Error: '' @ msg), [])
                    | Inr text \<Rightarrow>
                        if text = [] \<or> length (trim text) = 0 then
                          Some (Error_json ''No text content found in file'' 400, [])
                        else
                          (case chunkTextSmart fuel text 1000 200 of
                             None \<Rightarrow> None
                           | Some chunks \<Rightarrow>
                               if length chunks = 0 then
                                 Some (Error_json ''Failed to process file content'' 500, [])
                               else
                                 (case embed_all (getEmbeddings ext) (settle_order ext) chunks of
                                    Inl err \<Rightarrow> Some (caught err, [])
                                  | Inr embeddings \<Rightarrow>
                                      (let vectors =
                                             prepare_vectors (date_now ext)
                                               (date_toISOString ext) namespace
                                               (originalFilename file) fileExtension chunks
                                               embeddings;
                                           indexName =
                                             (case env_PINECONE_INDEX ext of
                                                None \<Rightarrow> []
                                              | Some v \<Rightarrow> or_else v [])
                                       in if indexName = [] then
                                            Some (Error_json
                                              ''Pinecone index not configured'' 500, [])
                                          else
                                            (case upsert_loop (upsert ext) namespace vectors 0 of
                                               (calls, Some err) \<Rightarrow> Some (caught err, calls)
                                             | (calls, None) \<Rightarrow>
                                                 Some (Success_json (originalFilename file)
                                                   (length chunks) namespace, calls))))))))"

section \<open>Whitespace and trimming\<close>

lemma dropWhile_all_iff: "(\<forall>x\<in>set (dropWhile P xs). P x) \<longleftrightarrow> (\<forall>x\<in>set xs. P x)"
  by (induction xs) auto

lemma trim_empty_iff: "trim s = [] \<longleftrightarrow> list_all is_ws s"
  by (simp add: trim_def list_all_iff dropWhile_all_iff)

section \<open>The bound on the iterations\<close>

text \<open>
  A loop that has returned within some number of iterations returns the same chunks when
  more are allowed: the bound does not change what is computed.
\<close>

lemma chunkText_loop_more_fuel:
  "chunkText_loop fuel text chunkSize overlap startIndex chunks = Some res \<Longrightarrow>
     chunkText_loop (fuel + k) text chunkSize overlap startIndex chunks = Some res"
proof (induction fuel arbitrary: startIndex chunks)
  case 0
  then show ?case by (cases k) (auto split: if_splits)
next
  case (Suc fuel)
  then show ?case by (auto simp: Let_def split: if_splits)
qed

lemma chunkTextSmart_loop_more_fuel:
  "chunkTextSmart_loop fuel text chunkSize overlap startIndex chunks = Some res \<Longrightarrow>
     chunkTextSmart_loop (fuel + k) text chunkSize overlap startIndex chunks = Some res"
proof (induction fuel arbitrary: startIndex chunks)
  case 0
  then show ?case by (cases k) (auto split: if_splits)
next
  case (Suc fuel)
  then show ?case by (auto simp: Let_def split: if_splits)
qed

section \<open>Empty and whitespace-only texts\<close>

text \<open>
  C9: for every text that is empty or consists only of whitespace, \<open>chunkText\<close> and
  \<open>chunkTextSmart\<close> both return the empty sequence, whatever the parameters, and
  without running the loop (no iteration is needed).
\<close>

theorem chunkers_blank_text:
  "list_all is_ws text \<Longrightarrow>
     chunkText fuel text chunkSize overlap = Some [] \<and>
     chunkTextSmart fuel text chunkSize overlap = Some []"
  using trim_empty_iff [of "text"] by (simp add: chunkText_def chunkTextSmart_def)

theorem chunkers_blank_text_witness:
  "list_all is_ws [CHR '' '', CHR 0x0A, CHR 0x09] \<and>
   chunkText 0 [CHR '' '', CHR 0x0A, CHR 0x09] 1000 200 = Some [] \<and>
   chunkTextSmart 0 [CHR '' '', CHR 0x0A, CHR 0x09] 1000 200 = Some []"
proof -
  have h: "list_all is_ws [CHR '' '', CHR 0x0A, CHR 0x09]"
    by (simp add: is_ws_def)
  show ?thesis
    using h chunkers_blank_text [OF h, of 0 1000 200] by simp
qed

section \<open>The loop of the fixed-width chunker\<close>

lemma substring_inside:
  "0 \<le> a \<Longrightarrow> a \<le> b \<Longrightarrow> b \<le> int (length s) \<Longrightarrow>
     substring s a b = take (nat (b - a)) (drop (nat a) s)"
  by (simp add: substring_def Let_def min_def max_def)

lemma chunkText_loop_returns:
  assumes step: "0 < chunkSize - overlap"
  shows "int (length text) - startIndex \<le> int fuel * (chunkSize - overlap) \<Longrightarrow>
         \<exists>res. chunkText_loop fuel text chunkSize overlap startIndex chunks = Some res \<and>
               length res \<le> length chunks + fuel"
proof (induction fuel arbitrary: startIndex chunks)
  case 0
  then show ?case by simp
next
  case (Suc fuel)
  let ?L = "int (length text)"
  let ?end = "min (startIndex + chunkSize) ?L"
  let ?chunks' = "chunks @ [substring text startIndex ?end]"
  show ?case
  proof (cases "startIndex < ?L")
    case False
    then show ?thesis by simp
  next
    case True
    show ?thesis
    proof (cases "?end = ?L")
      case True
      with \<open>startIndex < ?L\<close> show ?thesis by (simp add: Let_def)
    next
      case False
      have "?L - (startIndex + (chunkSize - overlap)) \<le> int fuel * (chunkSize - overlap)"
        using Suc.prems by (simp add: algebra_simps)
      from Suc.IH [OF this, of ?chunks']
      obtain res where
        "chunkText_loop fuel text chunkSize overlap (startIndex + (chunkSize - overlap)) ?chunks'
           = Some res" "length res \<le> length ?chunks' + fuel"
        by blast
      with \<open>startIndex < ?L\<close> False show ?thesis by (simp add: Let_def)
    qed
  qed
qed

lemma ceiling_quotient_covers:
  fixes s :: int
  assumes "0 < s"
  shows "int n \<le> int (nat \<lceil>real n / real_of_int s\<rceil>) * s"
proof -
  let ?c = "\<lceil>real n / real_of_int s\<rceil>"
  have "0 \<le> real n / real_of_int s" using assms by simp
  also have "\<dots> \<le> real_of_int ?c" by (rule le_of_int_ceiling)
  finally have nonneg: "0 \<le> ?c" by (simp only: of_int_0_le_iff)
  have pos: "0 < real_of_int s" using assms by simp
  have "real n / real_of_int s \<le> real_of_int ?c" by (rule le_of_int_ceiling)
  then have "real n \<le> real_of_int ?c * real_of_int s"
    by (rule pos_divide_le_eq [OF pos, THEN iffD1])
  then have "real_of_int (int n) \<le> real_of_int (?c * s)" by simp
  then have "int n \<le> ?c * s" by (simp only: of_int_le_iff)
  with nonneg show ?thesis by simp
qed

lemma iteration_bound_covers:
  assumes "0 < chunkSize - overlap"
  shows "int (length text) \<le> int (iteration_bound text chunkSize overlap) * (chunkSize - overlap)"
  unfolding iteration_bound_def by (rule ceiling_quotient_covers [OF assms])

lemma iteration_bound_pos:
  assumes "0 < chunkSize - overlap" "text \<noteq> []"
  shows "0 < iteration_bound text chunkSize overlap"
  using iteration_bound_covers [OF assms(1), of "text"] assms
  by (cases "iteration_bound text chunkSize overlap") auto

text \<open>
  C2: for every text, every \<open>chunkSize > 0\<close> and every \<open>overlap\<close> with
  \<open>0 \<le> overlap < chunkSize\<close>, \<open>chunkText\<close> returns, its loop body runs at most
  \<open>ceil(text.length / (chunkSize - overlap))\<close> times, and it returns at most that
  many chunks.
\<close>

theorem chunkText_iteration_bound:
  assumes "0 < chunkSize" and "0 \<le> overlap" and "overlap < chunkSize"
  shows "\<exists>chunks. chunkText (iteration_bound text chunkSize overlap) text chunkSize overlap
                     = Some chunks \<and>
                  length chunks \<le> iteration_bound text chunkSize overlap"
proof -
  have step: "0 < chunkSize - overlap" using assms by simp
  let ?n = "iteration_bound text chunkSize overlap"
  have "int (length text) - 0 \<le> int ?n * (chunkSize - overlap)"
    using iteration_bound_covers [OF step, of "text"] by simp
  from chunkText_loop_returns [OF step this, of "[]"]
  obtain res where res: "chunkText_loop ?n text chunkSize overlap 0 [] = Some res"
    "length res \<le> ?n" by auto
  show ?thesis
    using res iteration_bound_pos [OF step, of "text"]
    by (auto simp: chunkText_def)
qed

theorem chunkText_iteration_bound_witness:
  "(0::int) < 4 \<and> (0::int) \<le> 1 \<and> (1::int) < 4 \<and>
   (\<exists>chunks. chunkText (iteration_bound ''abcdefghij'' 4 1) ''abcdefghij'' 4 1 = Some chunks \<and>
             length chunks \<le> iteration_bound ''abcdefghij'' 4 1)"
  using chunkText_iteration_bound [of 4 1 "''abcdefghij''"] by simp

lemma chunkText_loop_done:
  "int (length text) \<le> startIndex \<Longrightarrow>
     chunkText_loop fuel text chunkSize overlap startIndex chunks = Some chunks"
  by (cases fuel) simp_all

lemma chunkText_loop_last:
  "startIndex < int (length text) \<Longrightarrow> int (length text) \<le> startIndex + chunkSize \<Longrightarrow>
     chunkText_loop (Suc fuel) text chunkSize overlap startIndex chunks
       = Some (chunks @ [substring text startIndex (int (length text))])"
  by (simp add: Let_def min_def)

lemma chunkText_loop_next:
  "startIndex < int (length text) \<Longrightarrow> startIndex + chunkSize < int (length text) \<Longrightarrow>
     chunkText_loop (Suc fuel) text chunkSize overlap startIndex chunks
       = chunkText_loop fuel text chunkSize overlap (startIndex + (chunkSize - overlap))
           (chunks @ [substring text startIndex (startIndex + chunkSize)])"
  by (simp add: Let_def min_def)

lemma chunkText_loop_overlaps:
  assumes "0 < chunkSize" "0 \<le> overlap" "overlap < chunkSize"
  shows "0 \<le> startIndex \<Longrightarrow>
         chunkText_loop fuel text chunkSize overlap startIndex chunks = Some res \<Longrightarrow>
         \<exists>new. res = chunks @ new \<and>
               concat (map (drop (nat overlap)) new) = drop (nat (startIndex + overlap)) text"
proof (induction fuel arbitrary: startIndex chunks)
  case 0
  then show ?case using assms by (auto split: if_splits)
next
  case (Suc fuel)
  let ?L = "int (length text)"
  show ?case
  proof (cases "startIndex < ?L")
    case False
    with Suc.prems assms show ?thesis by auto
  next
    case lt: True
    show ?thesis
    proof (cases "startIndex + chunkSize < ?L")
      case False
      let ?chunk = "substring text startIndex ?L"
      have res: "res = chunks @ [?chunk]"
        using Suc.prems(2) chunkText_loop_last [OF lt, of chunkSize fuel overlap chunks] False
        by simp
      have "?chunk = drop (nat startIndex) text"
        using Suc.prems(1) lt by (simp add: substring_inside)
      then have "drop (nat overlap) ?chunk = drop (nat (startIndex + overlap)) text"
        using Suc.prems(1) assms by (simp add: nat_add_distrib add.commute)
      with res show ?thesis by simp
    next
      case inside: True
      let ?chunk = "substring text startIndex (startIndex + chunkSize)"
      have rec: "chunkText_loop fuel text chunkSize overlap
                   (startIndex + (chunkSize - overlap)) (chunks @ [?chunk]) = Some res"
        using Suc.prems(2) chunkText_loop_next [OF lt inside, of fuel overlap chunks] by simp
      have "0 \<le> startIndex + (chunkSize - overlap)" using Suc.prems(1) assms by simp
      from Suc.IH [OF this rec] obtain new where
        new: "res = (chunks @ [?chunk]) @ new"
        "concat (map (drop (nat overlap)) new)
           = drop (nat (startIndex + (chunkSize - overlap) + overlap)) text"
        by blast
      have c: "?chunk = take (nat chunkSize) (drop (nat startIndex) text)"
        using Suc.prems(1) inside assms by (simp add: substring_inside)
      have d1: "drop (nat overlap) ?chunk
              = take (nat (chunkSize - overlap)) (drop (nat (startIndex + overlap)) text)"
        unfolding c using Suc.prems(1) assms
        by (simp add: drop_take nat_diff_distrib nat_add_distrib add.commute)
      have d2: "drop (nat (startIndex + (chunkSize - overlap) + overlap)) text
              = drop (nat (chunkSize - overlap)) (drop (nat (startIndex + overlap)) text)"
        using Suc.prems(1) assms
        by (simp add: nat_add_distrib[symmetric] add.commute)
      have "drop (nat overlap) ?chunk @ concat (map (drop (nat overlap)) new)
              = drop (nat (startIndex + overlap)) text"
        unfolding new(2) d1 d2 by (rule append_take_drop_id)
      with new(1) show ?thesis by (intro exI [of _ "?chunk # new"]) simp
    qed
  qed
qed


lemma not_blank_iff: "\<not> list_all is_ws text \<longleftrightarrow> text \<noteq> [] \<and> length (trim text) \<noteq> 0"
  using trim_empty_iff [of "text"] by auto

section \<open>Reconstruction of the text from its fixed-width chunks\<close>

text \<open>
  C5, as amended: for every text that is empty or holds a character that is not
  whitespace, every \<open>chunkSize > 0\<close> and every \<open>overlap\<close> with
  \<open>0 \<le> overlap < chunkSize\<close>, \<open>chunkText\<close> returns, and its chunks, with the first
  \<open>overlap\<close> characters of every chunk after the first removed, concatenate to the
  text.
\<close>

theorem chunkText_remove_overlaps:
  assumes "0 < chunkSize" and "0 \<le> overlap" and "overlap < chunkSize"
    and "text = [] \<or> \<not> list_all is_ws text"
  shows "\<exists>chunks. chunkText (iteration_bound text chunkSize overlap) text chunkSize overlap
                     = Some chunks \<and>
                  remove_overlaps overlap chunks = text"
proof (cases "text = []")
  case True
  then show ?thesis by (simp add: chunkText_def)
next
  case False
  with assms(4) have nb: "length (trim text) \<noteq> 0" by (simp add: not_blank_iff)
  let ?L = "int (length text)"
  let ?n = "iteration_bound text chunkSize overlap"
  show ?thesis
  proof (cases "?L \<le> chunkSize")
    case True
    with False nb show ?thesis by (simp add: chunkText_def)
  next
    case long: False
    have step: "0 < chunkSize - overlap" using assms by simp
    have top: "chunkText ?n text chunkSize overlap = chunkText_loop ?n text chunkSize overlap 0 []"
      using False nb long by (simp add: chunkText_def)
    have "?L - 0 \<le> int ?n * (chunkSize - overlap)"
      using iteration_bound_covers [OF step, of "text"] by simp
    from chunkText_loop_returns [OF step this, of "[]"]
    obtain res where res: "chunkText_loop ?n text chunkSize overlap 0 [] = Some res" by auto
    obtain fuel where n: "?n = Suc fuel"
      using iteration_bound_pos [OF step False] by (cases ?n) auto
    let ?c0 = "substring text 0 (0 + chunkSize)"
    have lt: "0 < ?L" "0 + chunkSize < ?L" using long assms by auto
    have rec: "chunkText_loop fuel text chunkSize overlap (0 + (chunkSize - overlap)) ([] @ [?c0])
                 = Some res"
      using res chunkText_loop_next [OF lt, of fuel overlap "[]"] unfolding n by simp
    have "0 \<le> 0 + (chunkSize - overlap)" using assms by simp
    from chunkText_loop_overlaps [OF assms(1-3) this rec] obtain new where
      new: "res = ([] @ [?c0]) @ new"
      "concat (map (drop (nat overlap)) new) = drop (nat (0 + (chunkSize - overlap) + overlap)) text"
      by blast
    have c0: "?c0 = take (nat chunkSize) text"
      using long assms by (simp add: substring_inside)
    have "remove_overlaps overlap res = text"
      using new c0 by simp
    with top res show ?thesis by simp
  qed
qed

theorem chunkText_remove_overlaps_witness:
  "(0::int) < 4 \<and> (0::int) \<le> 1 \<and> (1::int) < 4 \<and>
   (''abcdefghij'' = [] \<or> \<not> list_all is_ws ''abcdefghij'') \<and>
   (\<exists>chunks. chunkText (iteration_bound ''abcdefghij'' 4 1) ''abcdefghij'' 4 1 = Some chunks \<and>
             remove_overlaps 1 chunks = ''abcdefghij'')"
proof -
  have h1: "(0::int) < 4" and h2: "(0::int) \<le> 1" and h3: "(1::int) < 4" by simp_all
  have h4: "''abcdefghij'' = [] \<or> \<not> list_all is_ws ''abcdefghij''"
    by (simp add: is_ws_def)
  from h1 h2 h3 h4 chunkText_remove_overlaps [OF h1 h2 h3 h4] show ?thesis
    by blast
qed

text \<open>
  For a text of one space \<open>chunkText\<close> returns no chunk at all, and nothing is left to
  reconstruct the space from.
\<close>

theorem chunkText_remove_overlaps_blank_counterexample:
  "chunkText (iteration_bound '' '' 10 2) '' '' 10 2 = Some [] \<and>
   remove_overlaps 2 [] \<noteq> '' ''"
  by (simp add: chunkText_def trim_def is_ws_def)

section \<open>A text of 2500 characters\<close>

text \<open>
  C6, as amended: for \<open>chunkSize = 1000\<close> and \<open>overlap = 200\<close>, on every text of
  exactly 2500 characters that holds a character that is not whitespace, \<open>chunkText\<close>
  returns within three iterations exactly the three chunks of the ranges \<open>[0, 1000)\<close>,
  \<open>[800, 1800)\<close> and \<open>[1600, 2500)\<close>.
\<close>

theorem chunkText_2500:
  assumes "length text = 2500" and "\<not> list_all is_ws text"
  shows "chunkText 3 text 1000 200
           = Some [text_range text 0 1000, text_range text 800 1800, text_range text 1600 2500]"
proof -
  have nb: "text \<noteq> []" "length (trim text) \<noteq> 0"
    using assms(2) by (simp_all add: not_blank_iff)
  have L: "int (length text) = 2500" using assms(1) by simp
  have three: "(3::nat) = Suc (Suc (Suc 0))" by simp
  have "chunkText 3 text 1000 200 = chunkText_loop (Suc (Suc (Suc 0))) text 1000 200 0 []"
    using nb L by (simp add: chunkText_def three)
  also have "\<dots> = chunkText_loop (Suc (Suc 0)) text 1000 200 800 [substring text 0 1000]"
    using chunkText_loop_next [of 0 "text" 1000 "Suc (Suc 0)" 200 "[]"] L by simp
  also have "\<dots> = chunkText_loop (Suc 0) text 1000 200 1600
                      [substring text 0 1000, substring text 800 1800]"
    using chunkText_loop_next [of 800 "text" 1000 "Suc 0" 200 "[substring text 0 1000]"] L
    by simp
  also have "\<dots> = Some [substring text 0 1000, substring text 800 1800,
                          substring text 1600 2500]"
    using chunkText_loop_last [of 1600 "text" 1000 0 200
            "[substring text 0 1000, substring text 800 1800]"] L
    by simp
  finally show ?thesis
    using L by (simp add: substring_inside text_range_def)
qed

theorem chunkText_2500_witness:
  "length (replicate 2499 (CHR '' '') @ ''x'') = 2500 \<and>
   \<not> list_all is_ws (replicate 2499 (CHR '' '') @ ''x'') \<and>
   chunkText 3 (replicate 2499 (CHR '' '') @ ''x'') 1000 200
     = Some [text_range (replicate 2499 (CHR '' '') @ ''x'') 0 1000,
             text_range (replicate 2499 (CHR '' '') @ ''x'') 800 1800,
             text_range (replicate 2499 (CHR '' '') @ ''x'') 1600 2500]"
proof -
  have h1: "length (replicate 2499 (CHR '' '') @ ''x'') = 2500"
    by simp
  have h2: "\<not> list_all is_ws (replicate 2499 (CHR '' '') @ ''x'')"
    by (simp add: is_ws_def)
  from h1 h2 chunkText_2500 [OF h1 h2] show ?thesis
    by blast
qed

text \<open>A text of 2500 spaces has 2500 characters, and \<open>chunkText\<close> returns no chunk.\<close>

lemma blank_replicate: "list_all is_ws (replicate n (CHR '' ''))"
  by (simp add: list_all_iff is_ws_def)

theorem chunkText_2500_blank_counterexample:
  "length (replicate 2500 (CHR '' '')) = 2500 \<and>
   chunkText 3 (replicate 2500 (CHR '' '')) 1000 200 = Some []"
  using trim_empty_iff [of "replicate 2500 (CHR '' '')"] blank_replicate [of 2500]
  by (simp add: chunkText_def)

section \<open>A step that is not positive\<close>

lemma chunkText_loop_abc_diverges: "chunkText_loop fuel ''abc'' 2 2 0 chunks = None"
  by (induction fuel arbitrary: chunks) (simp_all add: Let_def)

text \<open>
  C3 asks that \<open>chunkText\<close> return for all parameters, \<open>overlap \<ge> chunkSize\<close> included.
  On the text \<open>abc\<close> with \<open>chunkSize = 2\<close> and \<open>overlap = 2\<close> it does not: whatever the
  number of iterations allowed, the loop condition still holds when they are used up.
\<close>

theorem chunkText_no_progress: "\<forall>fuel. chunkText fuel ''abc'' 2 2 = None"
  by (simp add: chunkText_def trim_def is_ws_def chunkText_loop_abc_diverges)

section \<open>Texts no longer than a chunk\<close>

text \<open>
  C4, as amended: for every text that holds a character that is not whitespace and
  has \<open>text.length \<le> chunkSize\<close>, \<open>chunkText\<close> returns exactly one chunk, equal to the
  text, and \<open>chunkTextSmart\<close> returns exactly one chunk, equal to the text up to
  leading and trailing whitespace.
\<close>

theorem chunkers_short_text:
  assumes "\<not> list_all is_ws text" and "int (length text) \<le> chunkSize"
  shows "chunkText fuel text chunkSize overlap = Some [text] \<and>
         (\<exists>c. chunkTextSmart fuel text chunkSize overlap = Some [c] \<and> trim c = trim text)"
  using assms by (simp add: not_blank_iff chunkText_def chunkTextSmart_def)

theorem chunkers_short_text_witness:
  "\<not> list_all is_ws '' a '' \<and> int (length '' a '') \<le> 10 \<and>
   chunkText 0 '' a '' 10 2 = Some ['' a ''] \<and>
   (\<exists>c. chunkTextSmart 0 '' a '' 10 2 = Some [c] \<and> trim c = trim '' a '')"
proof -
  have h1: "\<not> list_all is_ws '' a ''" by (simp add: is_ws_def)
  have h2: "int (length '' a '') \<le> 10" by simp
  show ?thesis
    using h1 h2 chunkers_short_text [OF h1 h2, of 0 2] by simp
qed

text \<open>
  A text of one space is not empty and is shorter than the chunk size, and \<open>chunkText\<close>
  returns no chunk; on the text \<open>" a "\<close> the chunk of \<open>chunkTextSmart\<close> is the text
  itself, which is not the trimmed text.
\<close>

theorem chunkers_short_text_counterexample:
  "chunkText 0 '' '' 10 2 = Some [] \<and>
   chunkTextSmart 0 '' a '' 10 2 = Some ['' a ''] \<and> trim '' a '' = ''a''"
  by (simp add: chunkText_def chunkTextSmart_def trim_def is_ws_def)

section \<open>The chunks of the boundary-aware chunker\<close>

lemma trim_not_blank: "trim s \<noteq> [] \<Longrightarrow> \<exists>ch\<in>set (trim s). \<not> is_ws ch"
proof -
  assume "trim s \<noteq> []"
  let ?xs = "dropWhile is_ws (rev (dropWhile is_ws s))"
  from \<open>trim s \<noteq> []\<close> have ne: "?xs \<noteq> []" by (simp add: trim_def)
  then have "\<not> is_ws (hd ?xs)" by (rule hd_dropWhile)
  moreover have "hd ?xs \<in> set (trim s)" using ne by (simp add: trim_def)
  ultimately show ?thesis by blast
qed

lemma chunkTextSmart_loop_not_blank:
  "chunkTextSmart_loop fuel text chunkSize overlap startIndex chunks = Some res \<Longrightarrow>
     (\<And>c. c \<in> set chunks \<Longrightarrow> \<exists>ch\<in>set c. \<not> is_ws ch) \<Longrightarrow>
     c \<in> set res \<Longrightarrow> \<exists>ch\<in>set c. \<not> is_ws ch"
proof (induction fuel arbitrary: startIndex chunks)
  case 0
  then show ?case by (auto split: if_splits)
next
  case (Suc fuel)
  let ?end = "smart_endIndex text chunkSize startIndex"
  let ?chunk = "trim (substring text startIndex ?end)"
  let ?chunks' = "if length ?chunk > 0 then chunks @ [?chunk] else chunks"
  have inv: "\<And>c. c \<in> set ?chunks' \<Longrightarrow> \<exists>ch\<in>set c. \<not> is_ws ch"
    using Suc.prems(2) trim_not_blank [of "substring text startIndex ?end"]
    by (auto split: if_splits)
  show ?case
  proof (cases "startIndex < int (length text)")
    case False
    with Suc.prems show ?thesis by auto
  next
    case True
    show ?thesis
    proof (cases "?end = int (length text)")
      case e: True
      with True Suc.prems(1) have "res = ?chunks'" by (auto simp: Let_def)
      with inv Suc.prems(3) show ?thesis by blast
    next
      case False
      with True Suc.prems(1)
      have "chunkTextSmart_loop fuel text chunkSize overlap (?end - overlap) ?chunks' = Some res"
        by (simp add: Let_def)
      from Suc.IH [OF this inv Suc.prems(3)] show ?thesis by blast
    qed
  qed
qed

text \<open>
  C8: whatever the text and the parameters, every chunk in a sequence that
  \<open>chunkTextSmart\<close> returns holds a character that is not whitespace, so none is empty
  after trimming.
\<close>

theorem chunkTextSmart_no_blank_chunk:
  assumes "chunkTextSmart fuel text chunkSize overlap = Some chunks" and "c \<in> set chunks"
  shows "trim c \<noteq> [] \<and> (\<exists>ch\<in>set c. \<not> is_ws ch)"
proof -
  have "\<exists>ch\<in>set c. \<not> is_ws ch"
  proof (cases "text = [] \<or> length (trim text) = 0")
    case True
    with assms show ?thesis by (simp add: chunkTextSmart_def)
  next
    case nb: False
    show ?thesis
    proof (cases "int (length text) \<le> chunkSize")
      case True
      with nb assms have "c = text" by (auto simp: chunkTextSmart_def)
      moreover have "\<not> list_all is_ws text" using nb trim_empty_iff [of "text"] by auto
      ultimately show ?thesis by (simp add: list_all_iff)
    next
      case False
      with nb assms(1)
      have "chunkTextSmart_loop fuel text chunkSize overlap 0 [] = Some chunks"
        by (simp add: chunkTextSmart_def)
      from chunkTextSmart_loop_not_blank [OF this _ assms(2)] show ?thesis by simp
    qed
  qed
  moreover from this have "trim c \<noteq> []"
    using trim_empty_iff [of c] by (auto simp: list_all_iff)
  ultimately show ?thesis by blast
qed

theorem chunkTextSmart_no_blank_chunk_witness:
  "chunkTextSmart 4 ''ab      cd'' 3 0 = Some [''ab'', ''c'', ''d''] \<and>
   ''c'' \<in> set [''ab'', ''c'', ''d''] \<and>
   trim ''c'' \<noteq> [] \<and> (\<exists>ch\<in>set ''c''. \<not> is_ws ch)"
proof -
  have run: "chunkTextSmart 4 ''ab      cd'' 3 0 = Some [''ab'', ''c'', ''d'']"
    by code_simp
  have mem: "''c'' \<in> set [''ab'', ''c'', ''d'']" by simp
  from run mem chunkTextSmart_no_blank_chunk [OF run mem] show ?thesis by blast
qed

section \<open>The boundary chosen by the boundary-aware chunker\<close>

text \<open>
  C1 asks that the end of a chunk that is not the last be just after the marker
  occurrence furthest to the right in the search window. The loop over the markers
  compares the start \<open>pos\<close> of an occurrence with \<open>lastBoundary\<close>, which holds the end of
  the one kept so far, so an occurrence that starts no more than two characters after
  the start of the one kept is passed over. On a text of twelve \<open>a\<close>, a full stop, two
  newlines and five \<open>b\<close>, with \<open>chunkSize = 15\<close>, the window of the first chunk is the
  full stop and the two newlines: the code ends the chunk at 14, after the full stop and
  one newline, where the rightmost boundary is 15, after the two newlines. With
  \<open>overlap = 3\<close> the second chunk therefore starts at 11, inside the run of \<open>a\<close>.
\<close>

theorem chunkTextSmart_boundary_not_rightmost:
  "smart_endIndex (''aaaaaaaaaaaa.'' @ [CHR 0x0A, CHR 0x0A] @ ''bbbbb'') 15 0 = 14 \<and>
   spec_endIndex (''aaaaaaaaaaaa.'' @ [CHR 0x0A, CHR 0x0A] @ ''bbbbb'') 15 0 = 15 \<and>
   chunkTextSmart 2 (''aaaaaaaaaaaa.'' @ [CHR 0x0A, CHR 0x0A] @ ''bbbbb'') 15 3
     = Some [''aaaaaaaaaaaa.'', ''a.'' @ [CHR 0x0A, CHR 0x0A] @ ''bbbbb'']"
  by code_simp

section \<open>The file-type policy\<close>











section \<open>The namespace of the upserted records\<close>

lemma upsert_loop_calls:
  "upsert_loop ups ns vectors i = (calls, r) \<Longrightarrow> (target, batch) \<in> set calls \<Longrightarrow>
     target = or_else ns [] \<and> set batch \<subseteq> set vectors"
proof (induction ups ns vectors i arbitrary: calls r rule: upsert_loop.induct)
  case (1 ups ns vectors i)
  show ?case
  proof (cases "i < length vectors")
    case False
    with "1.prems" show ?thesis by (simp add: upsert_loop.simps [of ups ns vectors i])
  next
    case True
    let ?batch = "take 100 (drop i vectors)"
    let ?t = "or_else ns []"
    have sub: "set ?batch \<subseteq> set vectors"
      by (meson set_take_subset set_drop_subset subset_trans)
    show ?thesis
    proof (cases "ups ?t ?batch")
      case (Some err)
      with True "1.prems" sub show ?thesis
        by (auto simp: Let_def upsert_loop.simps [of ups ns vectors i])
    next
      case None
      obtain calls' r' where rec: "upsert_loop ups ns vectors (i + 100) = (calls', r')"
        by (cases "upsert_loop ups ns vectors (i + 100)")
      with True None "1.prems"(1) have calls: "calls = (?t, ?batch) # calls'"
        by (simp add: Let_def upsert_loop.simps [of ups ns vectors i])
      show ?thesis
      proof (cases "(target, batch) = (?t, ?batch)")
        case True
        with sub show ?thesis by simp
      next
        case False
        with calls "1.prems"(2) have "(target, batch) \<in> set calls'" by auto
        from "1.IH" [OF True refl refl None rec this] show ?thesis .
      qed
    qed
  qed
qed

lemma prepare_vectors_namespace:
  "v \<in> set (prepare_vectors now isoString ns fileName fileExtension chunks embeddings) \<Longrightarrow>
     md_namespace (vec_metadata v) = or_else ns ''default''"
  by (auto simp: prepare_vectors_def)

lemma prepare_vectors_id:
  "v \<in> set (prepare_vectors now isoString ns fileName fileExtension chunks embeddings) \<Longrightarrow>
     prefix (or_else ns ''default'' @ ''-'') (vec_id v)"
  by (auto simp: prepare_vectors_def)

lemma ex_embed_all: "embed_all (\<lambda>_. Inr [1::int, 2]) [] [''hi''] = Inr [[1, 2]]"
  by (simp add: embed_all_def)


text \<open>One upload, evaluated step by step.\<close>

lemma ex_getFileExtension: "getFileExtension ''a.txt'' = ''txt''"
  by (simp add: getFileExtension_def pop_def or_else_def toLowerCase_def lower_char_def)

lemma ex_validateFileType: "validateFileType ''a.txt''"
  by (simp add: validateFileType_def ex_getFileExtension)

lemma ex_chunkTextSmart: "chunkTextSmart 0 ''hi'' 1000 200 = Some [''hi'']"
  by (simp add: chunkTextSmart_def trim_def is_ws_def)

lemma ex_number_toString: "number_toString 7 = ''7''" "number_toString 0 = ''0''"
  by code_simp+

lemma ex_prepare_vectors: "prepare_vectors (\<lambda>_. 7) (\<lambda>_. ''T'') [] ''a.txt'' ''txt'' [''hi''] [[1::int, 2]] = [\<lparr>vec_id = ''default-a.txt-7-0'', vec_values = [1, 2],
           vec_metadata =
             \<lparr>md_text = ''hi'', md_chunk = ''hi'', md_fileName = ''a.txt'',
              md_fileType = ''txt'', md_chunkIndex = 0, md_totalChunks = 1,
              md_namespace = ''default'', md_uploadedAt = ''T''\<rparr>\<rparr>]"
  by (simp add: prepare_vectors_def or_else_def ex_number_toString)

lemma ex_upsert_loop: "upsert_loop (\<lambda>_ _. None) [] [v] 0 = ([([], [v])], None)"
  by (simp add: upsert_loop.simps [of _ _ _ 0] upsert_loop.simps [of _ _ _ 100] or_else_def)

text \<open>
  C7, as amended: when the namespace field of the form is absent or empty, every record
  that \<open>POST\<close> hands to \<open>upsert\<close> has \<open>"default"\<close> as its \<open>metadata.namespace\<close> and
  \<open>default-\<close> as the prefix of its \<open>id\<close>, and every \<open>upsert\<close> call targets the namespace
  \<open>""\<close>, the empty string.
\<close>

theorem POST_empty_namespace:
  assumes "POST fuel ext form = Some (resp, calls)"
    and "fields_namespace form = None \<or> fields_namespace form = Some []"
    and "(target, batch) \<in> set calls" and "v \<in> set batch"
  shows "target = [] \<and> md_namespace (vec_metadata v) = ''default'' \<and>
         prefix ''default-'' (vec_id v)"
proof -
  have ns: "(case fields_namespace form of None \<Rightarrow> [] | Some v \<Rightarrow> or_else v []) = []"
    using assms(2) by (auto simp: or_else_def)
  have "calls = [] \<or>
        (\<exists>name ext_name chunks embeddings r.
           upsert_loop (upsert ext) []
             (prepare_vectors (date_now ext) (date_toISOString ext) [] name ext_name
                chunks embeddings) 0 = (calls, r))"
    using assms(1) unfolding POST_def ns Let_def
    by (fastforce simp: extractTextFromPDF_def
          split: list.splits if_splits sum.splits option.splits prod.splits)
  with assms(3) obtain name ext_name chunks embeddings r where loop:
    "upsert_loop (upsert ext) []
       (prepare_vectors (date_now ext) (date_toISOString ext) [] name ext_name
          chunks embeddings) 0 = (calls, r)"
    by auto
  from upsert_loop_calls [OF loop assms(3)] assms(4)
  have target: "target = or_else [] []" and
    mem: "v \<in> set (prepare_vectors (date_now ext) (date_toISOString ext) [] name ext_name
          chunks embeddings)"
    by auto
  from target have "target = []" by (simp add: or_else_def)
  moreover from prepare_vectors_namespace [OF mem]
  have "md_namespace (vec_metadata v) = ''default''" by (simp add: or_else_def)
  moreover from prepare_vectors_id [OF mem]
  have "prefix ''default-'' (vec_id v)" by (simp add: or_else_def)
  ultimately show ?thesis by blast
qed

theorem POST_empty_namespace_witness:
  "POST 0
     \<lparr>toString_utf8 = id, getEmbeddings = (\<lambda>_. Inr [1::int, 2]), settle_order = [],
        date_now = (\<lambda>_. 7),
        date_toISOString = (\<lambda>_. ''T''), env_PINECONE_INDEX = Some ''idx'',
        upsert = (\<lambda>_ _. None)\<rparr>
     \<lparr>files = [\<lparr>originalFilename = ''a.txt'', mimetype = ''text/plain'', file_size = 2,
                  buffer = ''hi''\<rparr>],
        fields_namespace = None\<rparr>
   = Some (Success_json ''a.txt'' 1 [],
       [([], [\<lparr>vec_id = ''default-a.txt-7-0'', vec_values = [1::int, 2],
           vec_metadata =
             \<lparr>md_text = ''hi'', md_chunk = ''hi'', md_fileName = ''a.txt'',
              md_fileType = ''txt'', md_chunkIndex = 0, md_totalChunks = 1,
              md_namespace = ''default'', md_uploadedAt = ''T''\<rparr>\<rparr>])]) \<and>
   md_namespace (vec_metadata
       \<lparr>vec_id = ''default-a.txt-7-0'', vec_values = [1::int, 2],
           vec_metadata =
             \<lparr>md_text = ''hi'', md_chunk = ''hi'', md_fileName = ''a.txt'',
              md_fileType = ''txt'', md_chunkIndex = 0, md_totalChunks = 1,
              md_namespace = ''default'', md_uploadedAt = ''T''\<rparr>\<rparr>) = ''default'' \<and>
   prefix ''default-'' (vec_id
       \<lparr>vec_id = ''default-a.txt-7-0'', vec_values = [1::int, 2],
           vec_metadata =
             \<lparr>md_text = ''hi'', md_chunk = ''hi'', md_fileName = ''a.txt'',
              md_fileType = ''txt'', md_chunkIndex = 0, md_totalChunks = 1,
              md_namespace = ''default'', md_uploadedAt = ''T''\<rparr>\<rparr>)"
proof -
  let ?v = "\<lparr>vec_id = ''default-a.txt-7-0'', vec_values = [1::int, 2],
           vec_metadata =
             \<lparr>md_text = ''hi'', md_chunk = ''hi'', md_fileName = ''a.txt'',
              md_fileType = ''txt'', md_chunkIndex = 0, md_totalChunks = 1,
              md_namespace = ''default'', md_uploadedAt = ''T''\<rparr>\<rparr>"
  let ?form = "\<lparr>files = [\<lparr>originalFilename = ''a.txt'', mimetype = ''text/plain'', file_size = 2,
                  buffer = ''hi''\<rparr>],
        fields_namespace = None\<rparr>"
  have run: "POST 0
     \<lparr>toString_utf8 = id, getEmbeddings = (\<lambda>_. Inr [1::int, 2]), settle_order = [],
        date_now = (\<lambda>_. 7),
        date_toISOString = (\<lambda>_. ''T''), env_PINECONE_INDEX = Some ''idx'',
        upsert = (\<lambda>_ _. None)\<rparr>
     ?form = Some (Success_json ''a.txt'' 1 [], [([], [?v])])"
    by (simp add: POST_def Let_def ex_getFileExtension ex_validateFileType ex_chunkTextSmart
          ex_embed_all ex_prepare_vectors ex_upsert_loop or_else_def validateFileSize_def
          trim_def is_ws_def)
  have ns: "fields_namespace ?form = None \<or> fields_namespace ?form = Some []" by simp
  have m1: "([], [?v]) \<in> set [([], [?v])]" by simp
  have m2: "?v \<in> set [?v]" by simp
  from run POST_empty_namespace [OF run ns m1 m2] show ?thesis by blast
qed

text \<open>
  With an empty namespace field the one \<open>upsert\<close> call of this upload targets the
  namespace \<open>""\<close>, not \<open>"default"\<close>.
\<close>

theorem POST_empty_namespace_counterexample:
  "POST 0
     \<lparr>toString_utf8 = id, getEmbeddings = (\<lambda>_. Inr [1::int, 2]), settle_order = [],
        date_now = (\<lambda>_. 7),
        date_toISOString = (\<lambda>_. ''T''), env_PINECONE_INDEX = Some ''idx'',
        upsert = (\<lambda>_ _. None)\<rparr>
     \<lparr>files = [\<lparr>originalFilename = ''a.txt'', mimetype = ''text/plain'', file_size = 2,
                  buffer = ''hi''\<rparr>],
        fields_namespace = Some []\<rparr>
   = Some (Success_json ''a.txt'' 1 [],
       [([], [\<lparr>vec_id = ''default-a.txt-7-0'', vec_values = [1::int, 2],
           vec_metadata =
             \<lparr>md_text = ''hi'', md_chunk = ''hi'', md_fileName = ''a.txt'',
              md_fileType = ''txt'', md_chunkIndex = 0, md_totalChunks = 1,
              md_namespace = ''default'', md_uploadedAt = ''T''\<rparr>\<rparr>])]) \<and>
   ([] :: string) \<noteq> ''default''"
  by (simp add: POST_def Let_def ex_getFileExtension ex_validateFileType ex_chunkTextSmart
        ex_embed_all ex_prepare_vectors ex_upsert_loop or_else_def validateFileSize_def
        trim_def is_ws_def)

end
